theory Spec2Isabelle
  imports Main "HOL-Library.Word"
begin

section \<open>The decompiler's instruction record (decompiler/instruction.h)\<close>

text \<open>
  The header declares two enumerations, the structures \<open>Parameter\<close> and
  \<open>Instruction\<close>, the stream insertion operator of \<open>Instruction\<close> and two iterator
  types over \<open>std::vector<Instruction>\<close>. The model below follows it declaration by
  declaration. Field names lose their leading underscore and gain the name of their
  structure, since \<open>_type\<close> occurs in both.
\<close>

subsection \<open>Enumerations\<close>

datatype InstType =
    kBinaryOp
  | kCall
  | kCondJump
  | kCondJumpRel
  | kDup
  | kJump
  | kJumpRel
  | kLoad
  | kReturn
  | kSpecial
  | kStack
  | kStore
  | kUnaryOp

datatype ParamType =
    kSByte
  | kByte
  | kShort
  | kUShort
  | kInt
  | kUInt
  | kString

subsection \<open>Machine integers and the value variant\<close>

text \<open>
  \<open>int32\<close>, \<open>uint32\<close> and \<open>int16\<close> come from \<open>common/scummsys.h\<close>: fixed-width
  integers, taken here as the 32-bit \<open>int\<close> and \<open>unsigned int\<close> and the 16-bit
  \<open>short\<close>. A word carries the bit pattern; \<open>sint\<close> reads a signed one, \<open>unat\<close> an
  unsigned one.
\<close>

type_synonym int32 = "32 word"
type_synonym uint32 = "32 word"
type_synonym int16 = "16 word"

text \<open>\<open>boost::variant<int32, uint32, std::string>\<close>: exactly one alternative is stored.\<close>

datatype variant =
    Int32 int32
  | UInt32 uint32
  | Str string

text \<open>\<open>boost::get<T>\<close> on a variant that stores another alternative throws \<open>boost::bad_get\<close>.\<close>

datatype error = bad_get

subsection \<open>Parameter\<close>

record Parameter =
  param_type :: ParamType
  param_value :: variant

definition getSigned :: "Parameter \<Rightarrow> error + int32" where
  "getSigned p = (case param_value p of Int32 v \<Rightarrow> Inr v | _ \<Rightarrow> Inl bad_get)"

definition getUnsigned :: "Parameter \<Rightarrow> error + uint32" where
  "getUnsigned p = (case param_value p of UInt32 v \<Rightarrow> Inr v | _ \<Rightarrow> Inl bad_get)"

definition getString :: "Parameter \<Rightarrow> error + string" where
  "getString p = (case param_value p of Str s \<Rightarrow> Inr s | _ \<Rightarrow> Inl bad_get)"

subsection \<open>Instruction\<close>

record Instruction =
  inst_opcode :: uint32
  inst_address :: uint32
  inst_stackChange :: int16
  inst_name :: string
  inst_type :: InstType
  inst_params :: "Parameter list"
  inst_codeGenData :: string

subsection \<open>Number formatting of the stream library\<close>

text \<open>
  The operator formats numbers through \<open>boost::format\<close> directives and through the
  stream's own integer insertion. Both end in the same digit generation: the digits of
  the magnitude in base 10 or 16, most significant first, with at least one digit.
\<close>

definition hex_alphabet :: "bool \<Rightarrow> string" where
  "hex_alphabet upper = (if upper then ''0123456789ABCDEF'' else ''0123456789abcdef'')"

definition digit_char :: "bool \<Rightarrow> nat \<Rightarrow> char" where
  "digit_char upper d = hex_alphabet upper ! d"

function hex_digits :: "bool \<Rightarrow> nat \<Rightarrow> string" where
  "hex_digits upper n =
     (if n < 16 then [digit_char upper n]
      else hex_digits upper (n div 16) @ [digit_char upper (n mod 16)])"
  by pat_completeness auto
termination
  by (relation "measure (\<lambda>(upper, n). n)") auto

function dec_digits :: "nat \<Rightarrow> string" where
  "dec_digits n =
     (if n < 10 then [digit_char False n]
      else dec_digits (n div 10) @ [digit_char False (n mod 10)])"
  by pat_completeness auto
termination
  by (relation "measure (\<lambda>n. n)") auto

declare hex_digits.simps [simp del]
declare dec_digits.simps [simp del]

text \<open>Decimal insertion of a signed integer: a minus sign, then the magnitude.\<close>

definition dec_int :: "int \<Rightarrow> string" where
  "dec_int i = (if i < 0 then CHR ''-'' # dec_digits (nat (- i)) else dec_digits (nat i))"

text \<open>Field width with fill character \<open>0\<close>: the fill goes in front of the digits.\<close>

definition zero_pad :: "nat \<Rightarrow> string \<Rightarrow> string" where
  "zero_pad w s = replicate (w - length s) CHR ''0'' @ s"

text \<open>
  \<open>%08x\<close> applied to a \<open>uint32\<close>: lowercase hexadecimal, width 8, zero fill.
\<close>

definition fmt_08x :: "uint32 \<Rightarrow> string" where
  "fmt_08x a = zero_pad 8 (hex_digits False (unat a))"

text \<open>
  \<open>%X\<close>: uppercase hexadecimal, no width. Hexadecimal insertion of a signed \<open>int\<close>
  prints its two's complement bit pattern, so both the signed and the unsigned
  argument print the digits of the unsigned reading of the word.
\<close>

definition fmt_X :: "32 word \<Rightarrow> string" where
  "fmt_X v = hex_digits True (unat v)"

text \<open>\<open>%d\<close> applied to the \<open>int16\<close> stack change: signed decimal.\<close>

definition fmt_d :: "int16 \<Rightarrow> string" where
  "fmt_d v = dec_int (sint v)"

text \<open>
  Insertion of the variant into a stream in its default formatting state (decimal, no
  width) inserts the stored alternative: a signed decimal, an unsigned decimal, or the
  characters of the string.
\<close>

fun put_variant :: "variant \<Rightarrow> string" where
  "put_variant (Int32 v) = dec_int (sint v)"
| "put_variant (UInt32 v) = dec_digits (unat v)"
| "put_variant (Str s) = s"

subsection \<open>The stream insertion operator of Instruction\<close>

text \<open>
  The output stream is the sequence of characters written so far. An insertion appends
  to it. An exception thrown while the operand of an insertion is computed leaves the
  stream as the earlier statements left it.
\<close>

type_synonym ostream = string

definition is_jump_or_call :: "InstType \<Rightarrow> bool" where
  "is_jump_or_call t =
     (t = kCondJump \<or> t = kCondJumpRel \<or> t = kJump \<or> t = kJumpRel \<or> t = kCall)"

text \<open>
  The body of the loop after the comma: the text inserted for one parameter, or the
  exception of its accessor.
\<close>

definition put_param :: "InstType \<Rightarrow> Parameter \<Rightarrow> error + string" where
  "put_param t p =
     (if is_jump_or_call t then
        (case param_type p of
           kSByte \<Rightarrow> map_sum id (\<lambda>v. '' 0x'' @ fmt_X v) (getSigned p)
         | kShort \<Rightarrow> map_sum id (\<lambda>v. '' 0x'' @ fmt_X v) (getSigned p)
         | kInt \<Rightarrow> map_sum id (\<lambda>v. '' 0x'' @ fmt_X v) (getSigned p)
         | kByte \<Rightarrow> map_sum id (\<lambda>v. '' 0x'' @ fmt_X v) (getUnsigned p)
         | kUShort \<Rightarrow> map_sum id (\<lambda>v. '' 0x'' @ fmt_X v) (getUnsigned p)
         | kUInt \<Rightarrow> map_sum id (\<lambda>v. '' 0x'' @ fmt_X v) (getUnsigned p)
         | kString \<Rightarrow> Inr ('' '' @ put_variant (param_value p)))
      else Inr ('' '' @ put_variant (param_value p)))"

text \<open>
  The loop over \<open>_params\<close>. \<open>first\<close> is \<open>param == inst._params.begin()\<close>. The result
  is the stream and the exception that ended the loop, if any.
\<close>

fun put_params :: "InstType \<Rightarrow> bool \<Rightarrow> Parameter list \<Rightarrow> ostream \<Rightarrow> ostream \<times> error option" where
  "put_params t first [] out = (out, None)"
| "put_params t first (p # ps) out =
     (let out1 = (if first then out else out @ '','') in
      case put_param t p of
        Inl e \<Rightarrow> (out1, Some e)
      | Inr s \<Rightarrow> put_params t False ps (out1 @ s))"

definition operator_output :: "ostream \<Rightarrow> Instruction \<Rightarrow> ostream \<times> error option" where
  "operator_output out inst =
     (let out1 = out @ fmt_08x (inst_address inst) @ '': '' @ inst_name inst in
      case put_params (inst_type inst) True (inst_params inst) out1 of
        (out2, Some e) \<Rightarrow> (out2, Some e)
      | (out2, None) \<Rightarrow>
          (out2 @ '' ('' @ fmt_d (inst_stackChange inst) @ '')'' @ [CHR 0x0A], None))"

subsection \<open>The operator on a stream that carries formatting flags\<close>

text \<open>
  The definitions above fix the stream in its default formatting state. The operator
  itself takes any \<open>std::ostream\<close>, and the two insertions of \<open>param->_value\<close> format
  an integer by the flags of that stream. This section keeps the flags which integer
  insertion reads: the number base and \<open>showbase\<close>, \<open>showpos\<close>, \<open>uppercase\<close>. The
  stream is in a good state, has the classic locale, and its field width is zero, as it is
  after every completed insertion.
\<close>

datatype basefield = Dec | Oct | Hex

record stream =
  written :: string
  base :: basefield
  showbase :: bool
  showpos :: bool
  uppercase :: bool

function oct_digits :: "nat \<Rightarrow> string" where
  "oct_digits n =
     (if n < 8 then [digit_char False n]
      else oct_digits (n div 8) @ [digit_char False (n mod 8)])"
  by pat_completeness auto
termination
  by (relation "measure (\<lambda>n. n)") auto

declare oct_digits.simps [simp del]

text \<open>
  Insertion of an unsigned integer, and of a signed one in base 8 or 16 (which is
  inserted as its bit pattern): the digits, after \<open>0\<close> or \<open>0x\<close> when \<open>showbase\<close> is
  set and the value is not zero. In base 10 \<open>showbase\<close> and \<open>uppercase\<close> change nothing.
\<close>

definition unsigned_text :: "stream \<Rightarrow> 32 word \<Rightarrow> string" where
  "unsigned_text s v =
     (case base s of
        Dec \<Rightarrow> dec_digits (unat v)
      | Oct \<Rightarrow> (if showbase s \<and> v \<noteq> 0 then ''0'' else []) @ oct_digits (unat v)
      | Hex \<Rightarrow>
          (if showbase s \<and> v \<noteq> 0 then (if uppercase s then ''0X'' else ''0x'') else []) @
          hex_digits (uppercase s) (unat v))"

text \<open>
  Insertion of a signed integer: in base 10 a minus sign and the magnitude, or the
  magnitude after a plus sign when \<open>showpos\<close> is set.
\<close>

definition signed_text :: "stream \<Rightarrow> 32 word \<Rightarrow> string" where
  "signed_text s v =
     (case base s of
        Dec \<Rightarrow>
          (if sint v < 0 then CHR ''-'' # dec_digits (nat (- sint v))
           else (if showpos s then ''+'' else []) @ dec_digits (nat (sint v)))
      | Oct \<Rightarrow> unsigned_text s v
      | Hex \<Rightarrow> unsigned_text s v)"

fun variant_text :: "stream \<Rightarrow> variant \<Rightarrow> string" where
  "variant_text s (Int32 v) = signed_text s v"
| "variant_text s (UInt32 v) = unsigned_text s v"
| "variant_text s (Str x) = x"

text \<open>
  Inserting characters appends them. A \<open>boost::format\<close> object formats its arguments
  in a stream of its own and inserts the resulting characters, so the flags of the target
  stream do not reach it. Inserting the variant inserts the stored alternative by the
  flags of the stream. No insertion changes a flag.
\<close>

definition put_chars :: "stream \<Rightarrow> string \<Rightarrow> stream" where
  "put_chars s txt = s\<lparr>written := written s @ txt\<rparr>"

definition insert_variant :: "stream \<Rightarrow> variant \<Rightarrow> stream" where
  "insert_variant s v = put_chars s (variant_text s v)"

definition insert_param :: "InstType \<Rightarrow> Parameter \<Rightarrow> stream \<Rightarrow> error + stream" where
  "insert_param t p s =
     (if is_jump_or_call t then
        (case param_type p of
           kSByte \<Rightarrow> map_sum id (\<lambda>v. put_chars s ('' 0x'' @ fmt_X v)) (getSigned p)
         | kShort \<Rightarrow> map_sum id (\<lambda>v. put_chars s ('' 0x'' @ fmt_X v)) (getSigned p)
         | kInt \<Rightarrow> map_sum id (\<lambda>v. put_chars s ('' 0x'' @ fmt_X v)) (getSigned p)
         | kByte \<Rightarrow> map_sum id (\<lambda>v. put_chars s ('' 0x'' @ fmt_X v)) (getUnsigned p)
         | kUShort \<Rightarrow> map_sum id (\<lambda>v. put_chars s ('' 0x'' @ fmt_X v)) (getUnsigned p)
         | kUInt \<Rightarrow> map_sum id (\<lambda>v. put_chars s ('' 0x'' @ fmt_X v)) (getUnsigned p)
         | kString \<Rightarrow> Inr (insert_variant (put_chars s '' '') (param_value p)))
      else Inr (insert_variant (put_chars s '' '') (param_value p)))"

fun insert_params :: "InstType \<Rightarrow> bool \<Rightarrow> Parameter list \<Rightarrow> stream \<Rightarrow> stream \<times> error option" where
  "insert_params t first [] s = (s, None)"
| "insert_params t first (p # ps) s =
     (let s1 = (if first then s else put_chars s '','') in
      case insert_param t p s1 of
        Inl e \<Rightarrow> (s1, Some e)
      | Inr s2 \<Rightarrow> insert_params t False ps s2)"

definition insert_Instruction :: "stream \<Rightarrow> Instruction \<Rightarrow> stream \<times> error option" where
  "insert_Instruction s inst =
     (let s1 = put_chars s (fmt_08x (inst_address inst) @ '': '' @ inst_name inst) in
      case insert_params (inst_type inst) True (inst_params inst) s1 of
        (s2, Some e) \<Rightarrow> (s2, Some e)
      | (s2, None) \<Rightarrow>
          (put_chars (put_chars s2 ('' ('' @ fmt_d (inst_stackChange inst) @ '')'')) [CHR 0x0A], None))"

subsection \<open>Instruction streams and their iterators\<close>

text \<open>
  \<open>InstIterator\<close> and \<open>ConstInstIterator\<close> are the iterator types of
  \<open>std::vector<Instruction>\<close>. A vector is the list of its elements; an iterator into it
  is a position between \<open>begin\<close> (0) and \<open>end\<close> (the length). Dereferencing is valid
  below \<open>end\<close> only.
\<close>

type_synonym InstIterator = nat
type_synonym ConstInstIterator = nat

definition vec_begin :: "'a list \<Rightarrow> nat" where
  "vec_begin v = 0"

definition vec_end :: "'a list \<Rightarrow> nat" where
  "vec_end v = length v"

definition deref :: "'a list \<Rightarrow> nat \<Rightarrow> 'a option" where
  "deref v it = (if it < vec_end v then Some (v ! it) else None)"

text \<open>
  The forward walk \<open>for (it = first; it != v.end(); ++it)\<close>, collecting \<open>*it\<close>. A
  position past the end is outside the walk.
\<close>

function forward_walk :: "'a list \<Rightarrow> nat \<Rightarrow> 'a list" where
  "forward_walk v it =
     (if vec_end v \<le> it then []
      else (case deref v it of None \<Rightarrow> [] | Some x \<Rightarrow> x # forward_walk v (Suc it)))"
  by pat_completeness auto
termination
  by (relation "measure (\<lambda>(v, it). length v - it)") (auto simp: vec_end_def)

declare forward_walk.simps [simp del]

text \<open>
  The reverse walk \<open>for (rit = reverse_iterator(base); rit != v.rend(); ++rit)\<close>. A
  reverse iterator holds a base position; it dereferences the element before its base,
  its increment decrements the base, and \<open>rend\<close> has base \<open>begin\<close>.
\<close>

fun reverse_walk :: "'a list \<Rightarrow> nat \<Rightarrow> 'a list" where
  "reverse_walk v 0 = []"
| "reverse_walk v (Suc b) =
     (case deref v b of None \<Rightarrow> [] | Some x \<Rightarrow> x # reverse_walk v b)"

definition iterate_forward :: "Instruction list \<Rightarrow> Instruction list" where
  "iterate_forward v = forward_walk v (vec_begin v)"

definition iterate_reverse :: "Instruction list \<Rightarrow> Instruction list" where
  "iterate_reverse v = reverse_walk v (vec_end v)"

subsection \<open>Notions of the specification\<close>

text \<open>
  Type coherence of a parameter: the stored alternative is the one its declared type
  implies. Nothing in the structure enforces it.
\<close>

definition is_signed_type :: "ParamType \<Rightarrow> bool" where
  "is_signed_type T = (T = kSByte \<or> T = kShort \<or> T = kInt)"

definition is_unsigned_type :: "ParamType \<Rightarrow> bool" where
  "is_unsigned_type T = (T = kByte \<or> T = kUShort \<or> T = kUInt)"

fun stores_signed :: "variant \<Rightarrow> bool" where
  "stores_signed (Int32 v) = True"
| "stores_signed (UInt32 v) = False"
| "stores_signed (Str s) = False"

fun stores_unsigned :: "variant \<Rightarrow> bool" where
  "stores_unsigned (Int32 v) = False"
| "stores_unsigned (UInt32 v) = True"
| "stores_unsigned (Str s) = False"

fun stores_text :: "variant \<Rightarrow> bool" where
  "stores_text (Int32 v) = False"
| "stores_text (UInt32 v) = False"
| "stores_text (Str s) = True"

definition type_coherent :: "Parameter \<Rightarrow> bool" where
  "type_coherent p =
     (if is_signed_type (param_type p) then stores_signed (param_value p)
      else if is_unsigned_type (param_type p) then stores_unsigned (param_value p)
      else stores_text (param_value p))"

definition inst_coherent :: "Instruction \<Rightarrow> bool" where
  "inst_coherent inst = list_all type_coherent (inst_params inst)"

text \<open>
  The parameters on which the operator calls an accessor that throws: a numeric declared
  type whose accessor does not find its alternative.
\<close>

definition accessor_mismatch :: "Parameter \<Rightarrow> bool" where
  "accessor_mismatch p =
     ((is_signed_type (param_type p) \<and> \<not> stores_signed (param_value p)) \<or>
      (is_unsigned_type (param_type p) \<and> \<not> stores_unsigned (param_value p)))"

text \<open>
  The rendered operand as the specification words it: a number of a jump or call is
  \<open>0x\<close> and its uppercase hexadecimal digits, any other operand has its default form.
\<close>

definition operand_text :: "InstType \<Rightarrow> Parameter \<Rightarrow> string" where
  "operand_text t p =
     (case param_value p of
        Int32 v \<Rightarrow>
          if t \<in> {kCondJump, kCondJumpRel, kJump, kJumpRel, kCall}
          then ''0x'' @ hex_digits True (unat v) else dec_int (sint v)
      | UInt32 v \<Rightarrow>
          if t \<in> {kCondJump, kCondJumpRel, kJump, kJumpRel, kCall}
          then ''0x'' @ hex_digits True (unat v) else dec_digits (unat v)
      | Str s \<Rightarrow> s)"

text \<open>
  The rendered operand on a stream with flags: a number of a jump or call is \<open>0x\<close> and
  its uppercase hexadecimal digits on every stream; any other operand is inserted by the
  flags of the stream.
\<close>

definition operand_text_on :: "stream \<Rightarrow> InstType \<Rightarrow> Parameter \<Rightarrow> string" where
  "operand_text_on s t p =
     (case param_value p of
        Int32 v \<Rightarrow>
          if t \<in> {kCondJump, kCondJumpRel, kJump, kJumpRel, kCall}
          then ''0x'' @ hex_digits True (unat v) else signed_text s v
      | UInt32 v \<Rightarrow>
          if t \<in> {kCondJump, kCondJumpRel, kJump, kJumpRel, kCall}
          then ''0x'' @ hex_digits True (unat v) else unsigned_text s v
      | Str x \<Rightarrow> x)"

text \<open>Two streams in the same formatting state.\<close>

definition same_flags :: "stream \<Rightarrow> stream \<Rightarrow> bool" where
  "same_flags s s' =
     (base s' = base s \<and> showbase s' = showbase s \<and> showpos s' = showpos s \<and>
      uppercase s' = uppercase s)"

text \<open>A stream with nothing written, in a given base, the other flags clear.\<close>

definition stream_in :: "basefield \<Rightarrow> stream" where
  "stream_in b = \<lparr>written = [], base = b, showbase = False, showpos = False, uppercase = False\<rparr>"

text \<open>A comma before every item but the first.\<close>

fun comma_separated :: "string list \<Rightarrow> string" where
  "comma_separated [] = []"
| "comma_separated [x] = x"
| "comma_separated (x # y # ys) = x @ '','' @ comma_separated (y # ys)"

text \<open>
  The line of an instruction on a stream with flags: address field, colon, space, name,
  the operands with their commas, the stack change in parentheses, newline. It reads the
  flags of the stream and five fields of the instruction.
\<close>

definition rendered_text :: "stream \<Rightarrow> Instruction \<Rightarrow> string" where
  "rendered_text s inst =
     fmt_08x (inst_address inst) @ '': '' @ inst_name inst @
     comma_separated
       (map (\<lambda>p. '' '' @ operand_text_on s (inst_type inst) p) (inst_params inst)) @
     '' ('' @ fmt_d (inst_stackChange inst) @ '')'' @ [CHR 0x0A]"

text \<open>Reading a string of hexadecimal digits back as a number.\<close>

definition digit_value :: "char \<Rightarrow> nat" where
  "digit_value c =
     (let k = of_char c :: nat in
      if 48 \<le> k \<and> k \<le> 57 then k - 48
      else if 97 \<le> k \<and> k \<le> 102 then k - 87
      else k - 55)"

definition hex_value :: "string \<Rightarrow> nat" where
  "hex_value s = foldl (\<lambda>acc c. 16 * acc + digit_value c) 0 s"

text \<open>An instruction with the fields the operator reads; the other two are empty.\<close>

definition inst_of :: "uint32 \<Rightarrow> string \<Rightarrow> InstType \<Rightarrow> Parameter list \<Rightarrow> int16 \<Rightarrow> Instruction" where
  "inst_of a n t ps sc =
     \<lparr>inst_opcode = 0, inst_address = a, inst_stackChange = sc, inst_name = n,
      inst_type = t, inst_params = ps, inst_codeGenData = []\<rparr>"

section \<open>Properties\<close>

subsection \<open>Digits\<close>

lemma length_hex_alphabet: "length (hex_alphabet up) = 16"
  by (simp add: hex_alphabet_def)

lemma digit_char_in: "d < 16 \<Longrightarrow> digit_char up d \<in> set (hex_alphabet up)"
  unfolding digit_char_def by (rule nth_mem) (simp add: length_hex_alphabet)

lemma set_hex_digits: "set (hex_digits up n) \<subseteq> set (hex_alphabet up)"
proof (induction up n rule: hex_digits.induct)
  case (1 up n)
  show ?case
  proof (cases "n < 16")
    case True
    then show ?thesis using digit_char_in [of n up] by (subst hex_digits.simps) simp
  next
    case False
    have "n mod 16 < 16" by simp
    then have "digit_char up (n mod 16) \<in> set (hex_alphabet up)"
      by (rule digit_char_in)
    with False "1.IH" show ?thesis by (subst hex_digits.simps) simp
  qed
qed

lemma set_fmt_08x: "set (fmt_08x a) \<subseteq> set ''0123456789abcdef''"
  using set_hex_digits [of False "unat a"]
  by (auto simp: fmt_08x_def zero_pad_def hex_alphabet_def)

lemma less_16_cases:
  "d < 16 \<Longrightarrow> d = 0 \<or> d = 1 \<or> d = 2 \<or> d = 3 \<or> d = 4 \<or> d = 5 \<or> d = 6 \<or> d = 7 \<or>
     d = 8 \<or> d = 9 \<or> d = 10 \<or> d = 11 \<or> d = 12 \<or> d = 13 \<or> d = 14 \<or> d = (15::nat)"
  by arith

lemma digit_value_digit_char: "d < 16 \<Longrightarrow> digit_value (digit_char up d) = d"
  by (cases up; drule less_16_cases)
     (auto simp: digit_value_def digit_char_def hex_alphabet_def)

lemma hex_value_snoc: "hex_value (s @ [c]) = 16 * hex_value s + digit_value c"
  by (simp add: hex_value_def)

lemma hex_value_hex_digits: "hex_value (hex_digits up n) = n"
proof (induction up n rule: hex_digits.induct)
  case (1 up n)
  show ?case
  proof (cases "n < 16")
    case True
    then show ?thesis
      by (subst hex_digits.simps) (simp add: hex_value_def digit_value_digit_char)
  next
    case False
    with "1.IH" have "hex_value (hex_digits up (n div 16)) = n div 16" by simp
    with False show ?thesis
      by (subst hex_digits.simps) (simp add: hex_value_snoc digit_value_digit_char)
  qed
qed

lemma foldl_hex_zeros:
  "foldl (\<lambda>acc c. 16 * acc + digit_value c) 0 (replicate k CHR ''0'') = 0"
  by (induction k) (simp_all add: digit_value_def)

lemma hex_value_zero_pad: "hex_value (zero_pad w s) = hex_value s"
  by (simp add: hex_value_def zero_pad_def foldl_hex_zeros)

lemma hex_value_fmt_08x: "hex_value (fmt_08x a) = unat a"
  by (simp add: fmt_08x_def hex_value_zero_pad hex_value_hex_digits)

lemma replicate_6: "replicate 6 c = [c, c, c, c, c, c]"
  by (simp add: eval_nat_numeral)

lemma fmt_08x_42: "fmt_08x 0x2A = ''0000002a''"
  by (simp add: fmt_08x_def zero_pad_def hex_digits.simps digit_char_def hex_alphabet_def replicate_6)

lemma fmt_X_neg16: "fmt_X (- 16) = ''FFFFFFF0''"
  by (simp add: fmt_X_def hex_digits.simps digit_char_def hex_alphabet_def)

lemma fmt_X_4096: "fmt_X 4096 = ''1000''"
  by (simp add: fmt_X_def hex_digits.simps digit_char_def hex_alphabet_def)

lemma put_variant_neg16: "put_variant (Int32 (- 16)) = ''-16''"
  by (simp add: dec_int_def dec_digits.simps digit_char_def hex_alphabet_def)

lemma fmt_d_neg2: "fmt_d (- 2) = ''-2''"
  by (simp add: fmt_d_def dec_int_def dec_digits.simps digit_char_def hex_alphabet_def)

lemma fmt_d_3: "fmt_d 3 = ''3''"
  by (simp add: fmt_d_def dec_int_def dec_digits.simps digit_char_def hex_alphabet_def)

lemma length_hex_digits_le:
  "0 < k \<Longrightarrow> n < 16 ^ k \<Longrightarrow> length (hex_digits up n) \<le> k"
proof (induction up n arbitrary: k rule: hex_digits.induct)
  case (1 up n)
  show ?case
  proof (cases "n < 16")
    case True
    with "1.prems" show ?thesis by (simp add: hex_digits.simps)
  next
    case False
    then obtain j where k: "k = Suc j"
      using "1.prems" by (cases k) auto
    from False "1.prems" k have "0 < j" by (cases j) auto
    moreover from "1.prems" k have "n div 16 < 16 ^ j"
      by (simp add: less_mult_imp_div_less mult.commute)
    ultimately have "length (hex_digits up (n div 16)) \<le> j"
      using "1.IH" False by simp
    with False k show ?thesis by (subst hex_digits.simps) simp
  qed
qed

lemma length_fmt_08x: "length (fmt_08x a) = 8"
proof -
  have "unat a < 2 ^ 32" using unsigned_less [of a] by simp
  then have "unat a < 16 ^ 8" by simp
  then have "length (hex_digits False (unat a)) \<le> 8"
    by (intro length_hex_digits_le) simp_all
  then show ?thesis by (simp add: fmt_08x_def zero_pad_def)
qed

subsection \<open>The parameter loop\<close>

lemma put_params_shift:
  "put_params t f ps (a @ b) = (a @ fst (put_params t f ps b), snd (put_params t f ps b))"
proof (induction ps arbitrary: f b)
  case Nil
  show ?case by simp
next
  case (Cons p ps)
  show ?case
  proof (cases "put_param t p")
    case (Inl e)
    then show ?thesis by simp
  next
    case (Inr s)
    show ?thesis
    proof (cases f)
      case True
      with Inr show ?thesis using Cons.IH [of False "b @ s"] by simp
    next
      case False
      with Inr show ?thesis using Cons.IH [of False "b @ '','' @ s"] by simp
    qed
  qed
qed

lemma put_params_fails_iff:
  "snd (put_params t f ps out) = (if \<exists>p\<in>set ps. isl (put_param t p) then Some bad_get else None)"
proof (induction ps arbitrary: f out)
  case Nil
  show ?case by simp
next
  case (Cons p ps)
  show ?case
  proof (cases "put_param t p")
    case (Inl e)
    then show ?thesis by (cases e) simp
  next
    case (Inr s)
    then show ?thesis by (simp add: Cons.IH)
  qed
qed

lemma put_params_rest:
  "\<forall>p\<in>set ps. put_param t p = Inr (g p) \<Longrightarrow>
   put_params t False ps out = (out @ concat (map (\<lambda>p. '','' @ g p) ps), None)"
  by (induction ps arbitrary: out) simp_all

lemma comma_separated_Cons:
  "comma_separated (x # xs) = x @ concat (map (\<lambda>y. '','' @ y) xs)"
  by (induction xs arbitrary: x) simp_all

lemma put_params_all:
  assumes "\<forall>p\<in>set ps. put_param t p = Inr (g p)"
  shows "put_params t True ps out = (out @ comma_separated (map g ps), None)"
proof (cases ps)
  case Nil
  then show ?thesis by simp
next
  case (Cons p qs)
  with assms have "\<forall>q\<in>set qs. put_param t q = Inr (g q)" and "put_param t p = Inr (g p)"
    by simp_all
  then show ?thesis
    using put_params_rest [of qs t g "out @ g p"] Cons
    by (simp add: comma_separated_Cons comp_def)
qed

lemma is_jump_or_call_set:
  "is_jump_or_call t \<longleftrightarrow> t \<in> {kCondJump, kCondJumpRel, kJump, kJumpRel, kCall}"
  by (auto simp: is_jump_or_call_def)

lemma put_param_coherent:
  "type_coherent p \<Longrightarrow> put_param t p = Inr ('' '' @ operand_text t p)"
  by (cases "param_type p"; cases "param_value p")
     (simp_all add: type_coherent_def is_signed_type_def is_unsigned_type_def put_param_def
        operand_text_def is_jump_or_call_set getSigned_def getUnsigned_def fmt_X_def)

lemma put_param_isl:
  "isl (put_param t p) \<longleftrightarrow> is_jump_or_call t \<and> accessor_mismatch p"
  by (cases "param_type p"; cases "param_value p")
     (simp_all add: accessor_mismatch_def is_signed_type_def is_unsigned_type_def put_param_def
        getSigned_def getUnsigned_def)

lemma coherent_no_mismatch: "type_coherent p \<Longrightarrow> \<not> accessor_mismatch p"
  by (auto simp: type_coherent_def accessor_mismatch_def is_signed_type_def
        is_unsigned_type_def split: if_splits)

subsection \<open>The operator\<close>

lemma operator_output_header:
  "\<exists>rest. fst (operator_output out inst) =
     out @ fmt_08x (inst_address inst) @ '': '' @ inst_name inst @ rest"
proof -
  let ?h = "out @ fmt_08x (inst_address inst) @ '': '' @ inst_name inst"
  have "put_params (inst_type inst) True (inst_params inst) (?h @ []) =
        (?h @ fst (put_params (inst_type inst) True (inst_params inst) []),
         snd (put_params (inst_type inst) True (inst_params inst) []))"
    by (rule put_params_shift)
  then show ?thesis
    by (cases "put_params (inst_type inst) True (inst_params inst) []")
       (auto simp: operator_output_def split: option.splits)
qed

lemma operator_output_error:
  "snd (operator_output out inst) =
     (if is_jump_or_call (inst_type inst) \<and> (\<exists>p\<in>set (inst_params inst). accessor_mismatch p)
      then Some bad_get else None)"
proof -
  let ?r = "put_params (inst_type inst) True (inst_params inst)
              (out @ fmt_08x (inst_address inst) @ '': '' @ inst_name inst)"
  have "snd (operator_output out inst) = snd ?r"
    by (cases ?r) (auto simp: operator_output_def split: option.splits)
  then show ?thesis
    by (simp add: put_params_fails_iff put_param_isl)
qed

lemma operator_output_all:
  assumes "\<forall>p\<in>set (inst_params inst). put_param (inst_type inst) p = Inr (g p)"
  shows "operator_output out inst =
     (out @ fmt_08x (inst_address inst) @ '': '' @ inst_name inst @
      comma_separated (map g (inst_params inst)) @
      '' ('' @ fmt_d (inst_stackChange inst) @ '')'' @ [CHR 0x0A], None)"
  using put_params_all [OF assms] by (simp add: operator_output_def)

lemma operator_output_coherent:
  assumes "inst_coherent inst"
  shows "operator_output out inst =
     (out @ fmt_08x (inst_address inst) @ '': '' @ inst_name inst @
      comma_separated (map (\<lambda>p. '' '' @ operand_text (inst_type inst) p) (inst_params inst)) @
      '' ('' @ fmt_d (inst_stackChange inst) @ '')'' @ [CHR 0x0A], None)"
proof (rule operator_output_all)
  show "\<forall>p\<in>set (inst_params inst).
          put_param (inst_type inst) p = Inr ('' '' @ operand_text (inst_type inst) p)"
    using assms by (simp add: inst_coherent_def list_all_iff put_param_coherent)
qed

lemma put_param_default:
  "\<not> is_jump_or_call t \<or> param_type p = kString \<Longrightarrow>
   put_param t p = Inr ('' '' @ put_variant (param_value p))"
  by (auto simp: put_param_def)

subsection \<open>Iteration\<close>

lemma forward_walk_drop: "forward_walk v it = drop it v"
proof (induction v it rule: forward_walk.induct)
  case (1 v it)
  show ?case
  proof (cases "vec_end v \<le> it")
    case True
    then show ?thesis by (subst forward_walk.simps) (simp add: vec_end_def)
  next
    case False
    then have "it < length v" by (simp add: vec_end_def)
    moreover from this have "deref v it = Some (v ! it)" by (simp add: deref_def vec_end_def)
    moreover from False this have "forward_walk v (Suc it) = drop (Suc it) v"
      by (rule "1.IH")
    ultimately show ?thesis
      using False by (subst forward_walk.simps) (simp add: Cons_nth_drop_Suc)
  qed
qed

lemma reverse_walk_take: "b \<le> length v \<Longrightarrow> reverse_walk v b = rev (take b v)"
  by (induction b) (simp_all add: deref_def vec_end_def take_Suc_conv_app_nth)

subsection \<open>Concrete renderings\<close>

lemma dec_digits_5: "dec_digits 5 = ''5''"
  by (simp add: dec_digits.simps digit_char_def hex_alphabet_def)

lemma fmt_d_1: "fmt_d 1 = ''1''"
  by (simp add: fmt_d_def dec_int_def dec_digits.simps digit_char_def hex_alphabet_def)

lemma fmt_d_0: "fmt_d 0 = ''0''"
  by (simp add: fmt_d_def dec_int_def dec_digits.simps digit_char_def hex_alphabet_def)

lemma put_param_jump_neg16:
  "put_param kJump \<lparr>param_type = kInt, param_value = Int32 (- 16)\<rparr> = Inr '' 0xFFFFFFF0''"
  by (simp add: put_param_def is_jump_or_call_def getSigned_def fmt_X_neg16)

lemma put_param_load_neg16:
  "put_param kLoad \<lparr>param_type = kInt, param_value = Int32 (- 16)\<rparr> = Inr '' -16''"
  using put_variant_neg16 by (simp add: put_param_def is_jump_or_call_def)

lemma put_param_call_4096:
  "put_param kCall \<lparr>param_type = kUInt, param_value = UInt32 4096\<rparr> = Inr '' 0x1000''"
  by (simp add: put_param_def is_jump_or_call_def getUnsigned_def fmt_X_4096)

lemma operator_output_single:
  "put_param t p = Inr s \<Longrightarrow>
   operator_output out (inst_of a n t [p] sc) =
     (out @ fmt_08x a @ '': '' @ n @ s @ '' ('' @ fmt_d sc @ '')'' @ [CHR 0x0A], None)"
  by (simp add: operator_output_def inst_of_def)

lemma dec_int_neg2: "dec_int (- 2) = ''-2''"
  by (simp add: dec_int_def dec_digits.simps digit_char_def hex_alphabet_def)

lemma dec_int_3: "dec_int 3 = ''3''"
  by (simp add: dec_int_def dec_digits.simps digit_char_def hex_alphabet_def)

lemma operator_output_footer:
  assumes "snd (operator_output out inst) = None"
  shows "\<exists>ptxt. fst (operator_output out inst) =
           out @ fmt_08x (inst_address inst) @ '': '' @ inst_name inst @ ptxt @
           '' ('' @ dec_int (sint (inst_stackChange inst)) @ '')'' @ [CHR 0x0A]"
proof -
  let ?h = "out @ fmt_08x (inst_address inst) @ '': '' @ inst_name inst"
  let ?r = "put_params (inst_type inst) True (inst_params inst) []"
  have sh: "put_params (inst_type inst) True (inst_params inst) (?h @ []) = (?h @ fst ?r, snd ?r)"
    by (rule put_params_shift)
  from assms sh have "snd ?r = None"
    by (cases ?r) (auto simp: operator_output_def split: option.splits)
  with sh have "fst (operator_output out inst) =
      ?h @ fst ?r @ '' ('' @ fmt_d (inst_stackChange inst) @ '')'' @ [CHR 0x0A]"
    by (simp add: operator_output_def)
  then show ?thesis by (auto simp: fmt_d_def)
qed

lemma operator_output_coherent_ok:
  "inst_coherent inst \<Longrightarrow> snd (operator_output out inst) = None"
  by (simp add: operator_output_coherent)

subsection \<open>Streams with flags\<close>

lemma same_flags_put_chars: "same_flags s (put_chars s txt)"
  by (simp add: same_flags_def put_chars_def)

lemma same_flags_refl: "same_flags s s"
  by (simp add: same_flags_def)

lemma same_flags_trans: "same_flags a b \<Longrightarrow> same_flags b c \<Longrightarrow> same_flags a c"
  by (simp add: same_flags_def)

lemma put_chars_put_chars: "put_chars (put_chars s a) b = put_chars s (a @ b)"
  by (simp add: put_chars_def)

lemma written_put_chars: "written (put_chars s a) = written s @ a"
  by (simp add: put_chars_def)

lemma unsigned_text_flags: "same_flags s s' \<Longrightarrow> unsigned_text s' v = unsigned_text s v"
  by (simp add: same_flags_def unsigned_text_def split: basefield.splits)

lemma signed_text_flags: "same_flags s s' \<Longrightarrow> signed_text s' v = signed_text s v"
  by (simp add: same_flags_def signed_text_def unsigned_text_def split: basefield.splits)

lemma variant_text_flags: "same_flags s s' \<Longrightarrow> variant_text s' x = variant_text s x"
  by (cases x) (simp_all add: signed_text_flags unsigned_text_flags)

lemma operand_text_on_flags:
  "same_flags s s' \<Longrightarrow> operand_text_on s' t p = operand_text_on s t p"
  by (simp add: operand_text_on_def signed_text_flags unsigned_text_flags split: variant.splits)

lemma insert_variant_space:
  "insert_variant (put_chars s '' '') x = put_chars s ('' '' @ variant_text s x)"
  using variant_text_flags [OF same_flags_put_chars, of s "'' ''" x]
  by (simp add: insert_variant_def put_chars_put_chars)

lemma insert_param_flags:
  "insert_param t p s = Inr s' \<Longrightarrow> same_flags s s'"
  by (cases "param_type p"; cases "param_value p")
     (auto simp: insert_param_def insert_variant_space same_flags_put_chars getSigned_def
        getUnsigned_def split: if_splits)

lemma insert_params_flags: "same_flags s (fst (insert_params t f ps s))"
proof (induction ps arbitrary: f s)
  case Nil
  show ?case by (simp add: same_flags_refl)
next
  case (Cons p ps)
  let ?s1 = "if f then s else put_chars s '',''"
  have s1: "same_flags s ?s1" by (simp add: same_flags_refl same_flags_put_chars)
  show ?case
  proof (cases "insert_param t p ?s1")
    case (Inl e)
    with s1 show ?thesis by simp
  next
    case (Inr s2)
    then have "same_flags ?s1 s2" by (rule insert_param_flags)
    with s1 have "same_flags s s2" by (rule same_flags_trans)
    moreover have "same_flags s2 (fst (insert_params t False ps s2))" by (rule Cons.IH)
    ultimately have "same_flags s (fst (insert_params t False ps s2))"
      by (rule same_flags_trans)
    with Inr show ?thesis by simp
  qed
qed

lemma insert_Instruction_flags: "same_flags s (fst (insert_Instruction s inst))"
proof -
  let ?s1 = "put_chars s (fmt_08x (inst_address inst) @ '': '' @ inst_name inst)"
  let ?r = "insert_params (inst_type inst) True (inst_params inst) ?s1"
  have "same_flags s ?s1" by (rule same_flags_put_chars)
  moreover have "same_flags ?s1 (fst ?r)" by (rule insert_params_flags)
  ultimately have a: "same_flags s (fst ?r)" by (rule same_flags_trans)
  show ?thesis
  proof (cases ?r)
    case (Pair s2 r)
    with a have s2: "same_flags s s2" by simp
    show ?thesis
    proof (cases r)
      case None
      have "same_flags s2 (put_chars (put_chars s2 ('' ('' @ fmt_d (inst_stackChange inst) @ '')'')) [CHR 0x0A])"
        by (simp add: put_chars_put_chars same_flags_put_chars)
      with s2 have "same_flags s (put_chars (put_chars s2 ('' ('' @ fmt_d (inst_stackChange inst) @ '')'')) [CHR 0x0A])"
        by (rule same_flags_trans)
      with Pair None show ?thesis by (simp add: insert_Instruction_def)
    next
      case (Some e)
      with Pair s2 show ?thesis by (simp add: insert_Instruction_def)
    qed
  qed
qed

lemma insert_param_coherent:
  "type_coherent p \<Longrightarrow> insert_param t p s = Inr (put_chars s ('' '' @ operand_text_on s t p))"
  by (cases "param_type p"; cases "param_value p")
     (simp_all add: type_coherent_def is_signed_type_def is_unsigned_type_def insert_param_def
        operand_text_on_def is_jump_or_call_set getSigned_def getUnsigned_def fmt_X_def
        insert_variant_space)

lemma insert_params_rest:
  "\<forall>p\<in>set ps. type_coherent p \<Longrightarrow>
   insert_params t False ps s =
     (put_chars s (concat (map (\<lambda>p. '','' @ '' '' @ operand_text_on s t p) ps)), None)"
proof (induction ps arbitrary: s)
  case Nil
  show ?case by (simp add: put_chars_def)
next
  case (Cons p ps)
  let ?s2 = "put_chars (put_chars s '','') ('' '' @ operand_text_on (put_chars s '','') t p)"
  have p: "insert_param t p (put_chars s '','') = Inr ?s2"
    using Cons.prems by (simp add: insert_param_coherent)
  have f: "same_flags s ?s2"
    by (simp add: put_chars_put_chars same_flags_put_chars)
  have "insert_params t False ps ?s2 =
      (put_chars ?s2 (concat (map (\<lambda>p. '','' @ '' '' @ operand_text_on ?s2 t p) ps)), None)"
    using Cons.prems by (intro Cons.IH) simp
  then show ?case
    using p operand_text_on_flags [OF f] operand_text_on_flags [OF same_flags_put_chars, of s "'',''"]
    by (simp add: put_chars_put_chars)
qed

lemma insert_params_all:
  assumes "\<forall>p\<in>set ps. type_coherent p"
  shows "insert_params t True ps s =
     (put_chars s (comma_separated (map (\<lambda>p. '' '' @ operand_text_on s t p) ps)), None)"
proof (cases ps)
  case Nil
  then show ?thesis by (simp add: put_chars_def)
next
  case (Cons p qs)
  let ?s2 = "put_chars s ('' '' @ operand_text_on s t p)"
  from Cons assms have p: "insert_param t p s = Inr ?s2" and qs: "\<forall>q\<in>set qs. type_coherent q"
    by (simp_all add: insert_param_coherent)
  have f: "same_flags s ?s2" by (rule same_flags_put_chars)
  have "insert_params t False qs ?s2 =
      (put_chars ?s2 (concat (map (\<lambda>p. '','' @ '' '' @ operand_text_on ?s2 t p) qs)), None)"
    using qs by (rule insert_params_rest)
  then show ?thesis
    using p Cons operand_text_on_flags [OF f]
    by (simp add: put_chars_put_chars comma_separated_Cons comp_def)
qed

lemma insert_Instruction_coherent:
  assumes "inst_coherent inst"
  shows "insert_Instruction s inst =
     (put_chars s (fmt_08x (inst_address inst) @ '': '' @ inst_name inst @
        comma_separated (map (\<lambda>p. '' '' @ operand_text_on s (inst_type inst) p) (inst_params inst)) @
        '' ('' @ fmt_d (inst_stackChange inst) @ '')'' @ [CHR 0x0A]), None)"
proof -
  let ?s1 = "put_chars s (fmt_08x (inst_address inst) @ '': '' @ inst_name inst)"
  have c: "\<forall>p\<in>set (inst_params inst). type_coherent p"
    using assms by (simp add: inst_coherent_def list_all_iff)
  have "insert_params (inst_type inst) True (inst_params inst) ?s1 =
     (put_chars ?s1 (comma_separated (map (\<lambda>p. '' '' @ operand_text_on ?s1 (inst_type inst) p)
        (inst_params inst))), None)"
    using c by (rule insert_params_all)
  then show ?thesis
    using operand_text_on_flags [OF same_flags_put_chars, of s _ "inst_type inst"]
    by (simp add: insert_Instruction_def put_chars_put_chars)
qed

lemma operand_text_on_jump:
  "is_jump_or_call t \<Longrightarrow> operand_text_on s t p = operand_text t p"
  by (simp add: operand_text_on_def operand_text_def is_jump_or_call_set split: variant.splits)

lemma operand_text_on_default:
  "base s = Dec \<Longrightarrow> \<not> showpos s \<Longrightarrow> operand_text_on s t p = operand_text t p"
  by (simp add: operand_text_on_def operand_text_def signed_text_def unsigned_text_def dec_int_def
        split: variant.splits)

lemma insert_param_default:
  "base s = Dec \<Longrightarrow> \<not> showpos s \<Longrightarrow>
   insert_param t p s = map_sum id (put_chars s) (put_param t p)"
  by (cases "param_type p"; cases "param_value p")
     (simp_all add: insert_param_def put_param_def insert_variant_space signed_text_def
        unsigned_text_def dec_int_def getSigned_def getUnsigned_def)

lemma insert_params_default:
  "base s = Dec \<Longrightarrow> \<not> showpos s \<Longrightarrow>
   insert_params t f ps s =
     (s\<lparr>written := fst (put_params t f ps (written s))\<rparr>, snd (put_params t f ps (written s)))"
proof (induction ps arbitrary: f s)
  case Nil
  show ?case by simp
next
  case (Cons p ps)
  let ?s1 = "if f then s else put_chars s '',''"
  have d: "base ?s1 = Dec" "\<not> showpos ?s1"
    using Cons.prems by (simp_all add: put_chars_def)
  have w: "written ?s1 = (if f then written s else written s @ '','')"
    by (simp add: put_chars_def)
  show ?case
  proof (cases "put_param t p")
    case (Inl e)
    then have "insert_param t p ?s1 = Inl e"
      using insert_param_default [OF d, of t p] by simp
    with Inl show ?thesis by (simp add: put_chars_def)
  next
    case (Inr str)
    then have i: "insert_param t p ?s1 = Inr (put_chars ?s1 str)"
      using insert_param_default [OF d, of t p] by simp
    have d2: "base (put_chars ?s1 str) = Dec" "\<not> showpos (put_chars ?s1 str)"
      using d by (simp_all add: put_chars_def)
    have "insert_params t False ps (put_chars ?s1 str) =
        ((put_chars ?s1 str)\<lparr>written := fst (put_params t False ps (written (put_chars ?s1 str)))\<rparr>,
         snd (put_params t False ps (written (put_chars ?s1 str))))"
      using d2 by (rule Cons.IH)
    with Inr i show ?thesis by (simp add: put_chars_def)
  qed
qed

lemma insert_Instruction_default:
  assumes "base s = Dec" and "\<not> showpos s"
  shows "insert_Instruction s inst =
     (s\<lparr>written := fst (operator_output (written s) inst)\<rparr>,
      snd (operator_output (written s) inst))"
proof -
  let ?s1 = "put_chars s (fmt_08x (inst_address inst) @ '': '' @ inst_name inst)"
  have d: "base ?s1 = Dec" "\<not> showpos ?s1"
    using assms by (simp_all add: put_chars_def)
  let ?r = "put_params (inst_type inst) True (inst_params inst) (written ?s1)"
  have "insert_params (inst_type inst) True (inst_params inst) ?s1 =
      (?s1\<lparr>written := fst ?r\<rparr>, snd ?r)"
    using d by (rule insert_params_default)
  then show ?thesis
    by (cases ?r)
       (auto simp: insert_Instruction_def operator_output_def put_chars_def split: option.splits)
qed

lemma rendered_text_flags:
  "same_flags s s' \<Longrightarrow> rendered_text s' inst = rendered_text s inst"
  by (simp add: rendered_text_def operand_text_on_flags)

lemma rendered_text_jump:
  "is_jump_or_call (inst_type inst) \<Longrightarrow> rendered_text s inst = rendered_text s' inst"
  by (simp add: rendered_text_def operand_text_on_jump)

lemma insert_Instruction_rendered:
  "inst_coherent inst \<Longrightarrow>
   insert_Instruction s inst = (put_chars s (rendered_text s inst), None)"
  by (simp add: insert_Instruction_coherent rendered_text_def)

lemma dec_digits_255: "dec_digits 255 = ''255''"
  by (simp add: dec_digits.simps digit_char_def hex_alphabet_def)

lemma hex_digits_255: "hex_digits False 255 = ''ff''"
  by (simp add: hex_digits.simps digit_char_def hex_alphabet_def)

lemma push_255_coherent:
  "inst_coherent (inst_of 0x2A ''push'' kLoad [\<lparr>param_type = kInt, param_value = Int32 255\<rparr>] 1)"
  by (simp add: inst_coherent_def inst_of_def type_coherent_def is_signed_type_def)

lemma rendered_text_push_255_hex:
  "rendered_text (stream_in Hex)
     (inst_of 0x2A ''push'' kLoad [\<lparr>param_type = kInt, param_value = Int32 255\<rparr>] 1) =
   ''0000002a: push ff (1)\<newline>''"
  by (simp add: rendered_text_def inst_of_def operand_text_on_def signed_text_def
        unsigned_text_def stream_in_def fmt_08x_42 fmt_d_1 hex_digits_255)

lemma rendered_text_jump_neg16_dec:
  "rendered_text (stream_in Dec)
     (inst_of 0x2A ''jump'' kJump [\<lparr>param_type = kInt, param_value = Int32 (- 16)\<rparr>] 3) =
   ''0000002a: jump 0xFFFFFFF0 (3)\<newline>''"
  using fmt_X_neg16
  by (simp add: rendered_text_def inst_of_def operand_text_on_def fmt_X_def fmt_08x_42 fmt_d_3)

section \<open>The claims\<close>

text \<open>
  C1 (as amended). For every instruction and every stream, the operator first appends the
  address as exactly eight hexadecimal digits, zero-padded, in LOWERCASE (the directive is
  \<open>%08x\<close>), then a colon, a space and the mnemonic name; whatever follows comes after
  them, also when a later accessor throws. The eight digits read back as the address.
  Address \<open>0x2A\<close> gives the field \<open>0000002a\<close>.
\<close>

theorem address_field_lowercase_hex:
  "(\<exists>rest. fst (operator_output out inst) =
      out @ fmt_08x (inst_address inst) @ '': '' @ inst_name inst @ rest) \<and>
   length (fmt_08x (inst_address inst)) = 8 \<and>
   set (fmt_08x (inst_address inst)) \<subseteq> set ''0123456789abcdef'' \<and>
   hex_value (fmt_08x (inst_address inst)) = unat (inst_address inst) \<and>
   (inst_address inst = 0x2A \<longrightarrow> fmt_08x (inst_address inst) = ''0000002a'')"
proof (intro conjI impI)
  show "\<exists>rest. fst (operator_output out inst) =
      out @ fmt_08x (inst_address inst) @ '': '' @ inst_name inst @ rest"
    by (rule operator_output_header)
  show "length (fmt_08x (inst_address inst)) = 8"
    by (rule length_fmt_08x)
  show "set (fmt_08x (inst_address inst)) \<subseteq> set ''0123456789abcdef''"
    by (rule set_fmt_08x)
  show "hex_value (fmt_08x (inst_address inst)) = unat (inst_address inst)"
    by (rule hex_value_fmt_08x)
  show "fmt_08x (inst_address inst) = ''0000002a''" if "inst_address inst = 0x2A"
    using that by (simp only: fmt_08x_42)
qed

theorem address_field_lowercase_hex_witness:
  "take 8 (fst (operator_output [] (inst_of 0x2A ''nop'' kSpecial [] 0))) = ''0000002a''"
  using address_field_lowercase_hex [of "[]" "inst_of 0x2A ''nop'' kSpecial [] 0"]
  by (auto simp: inst_of_def)

text \<open>
  The address field of an instruction at \<open>0x2A\<close> is not \<open>0000002A\<close>: the
  digits of the address are lowercase.
\<close>

theorem address_field_uppercase_counterexample:
  "take 8 (fst (operator_output [] (inst_of 0x2A ''nop'' kSpecial [] 0))) \<noteq> ''0000002A''"
  by (simp add: operator_output_def inst_of_def fmt_08x_42)

text \<open>
  C2 (as amended). For every type-coherent parameter, \<open>getSigned\<close> returns the stored
  signed value if and only if the declared type is a signed kind and throws
  \<open>bad_get\<close> otherwise; likewise \<open>getUnsigned\<close> for the unsigned kinds and
  \<open>getString\<close> for \<open>kString\<close>.
\<close>

theorem accessors_follow_declared_type_when_coherent:
  assumes "type_coherent p"
  shows "((\<exists>v. getSigned p = Inr v \<and> param_value p = Int32 v) \<longleftrightarrow> is_signed_type (param_type p)) \<and>
         (getSigned p = Inl bad_get \<longleftrightarrow> \<not> is_signed_type (param_type p)) \<and>
         ((\<exists>v. getUnsigned p = Inr v \<and> param_value p = UInt32 v) \<longleftrightarrow> is_unsigned_type (param_type p)) \<and>
         (getUnsigned p = Inl bad_get \<longleftrightarrow> \<not> is_unsigned_type (param_type p)) \<and>
         ((\<exists>s. getString p = Inr s \<and> param_value p = Str s) \<longleftrightarrow> param_type p = kString) \<and>
         (getString p = Inl bad_get \<longleftrightarrow> param_type p \<noteq> kString)"
  using assms
  by (cases "param_type p"; cases "param_value p")
     (simp_all add: type_coherent_def is_signed_type_def is_unsigned_type_def
        getSigned_def getUnsigned_def getString_def)

theorem accessors_follow_declared_type_when_coherent_witness:
  "type_coherent \<lparr>param_type = kShort, param_value = Int32 (- 3)\<rparr> \<and>
   getSigned \<lparr>param_type = kShort, param_value = Int32 (- 3)\<rparr> = Inr (- 3) \<and>
   getUnsigned \<lparr>param_type = kShort, param_value = Int32 (- 3)\<rparr> = Inl bad_get \<and>
   getString \<lparr>param_type = kShort, param_value = Int32 (- 3)\<rparr> = Inl bad_get"
proof -
  have c: "type_coherent \<lparr>param_type = kShort, param_value = Int32 (- 3)\<rparr>"
    by (simp add: type_coherent_def is_signed_type_def)
  show ?thesis
    using c accessors_follow_declared_type_when_coherent [OF c]
    by (simp add: is_signed_type_def is_unsigned_type_def)
qed

text \<open>
  Without coherence the declared type does not decide: a parameter declared \<open>kUShort\<close>
  that stores a signed integer has \<open>getSigned\<close> succeed and \<open>getUnsigned\<close> throw.
\<close>

theorem accessor_ignores_declared_type_counterexample:
  "\<not> is_signed_type (param_type \<lparr>param_type = kUShort, param_value = Int32 7\<rparr>) \<and>
   getSigned \<lparr>param_type = kUShort, param_value = Int32 7\<rparr> = Inr 7 \<and>
   is_unsigned_type (param_type \<lparr>param_type = kUShort, param_value = Int32 7\<rparr>) \<and>
   getUnsigned \<lparr>param_type = kUShort, param_value = Int32 7\<rparr> = Inl bad_get"
  by (simp add: getSigned_def getUnsigned_def is_signed_type_def is_unsigned_type_def)

text \<open>
  C3 (as amended). The operator ends with \<open>bad_get\<close> exactly when the instruction is
  a jump or call (\<open>kCondJump\<close>, \<open>kCondJumpRel\<close>, \<open>kJump\<close>, \<open>kJumpRel\<close>,
  \<open>kCall\<close>) and one of its parameters has a signed declared type without a stored
  signed value, or an unsigned declared type without a stored unsigned value. For every
  other category the operator succeeds and prints each stored alternative in its default
  form, whatever the declared types; so does a parameter declared \<open>kString\<close> in any
  category.
\<close>

theorem render_fails_iff_accessor_mismatch:
  "snd (operator_output out inst) =
     (if is_jump_or_call (inst_type inst) \<and> (\<exists>p\<in>set (inst_params inst). accessor_mismatch p)
      then Some bad_get else None) \<and>
   (\<not> is_jump_or_call (inst_type inst) \<longrightarrow>
      operator_output out inst =
        (out @ fmt_08x (inst_address inst) @ '': '' @ inst_name inst @
         comma_separated (map (\<lambda>p. '' '' @ put_variant (param_value p)) (inst_params inst)) @
         '' ('' @ fmt_d (inst_stackChange inst) @ '')'' @ [CHR 0x0A], None)) \<and>
   (param_type p = kString \<longrightarrow>
      put_param (inst_type inst) p = Inr ('' '' @ put_variant (param_value p)))"
proof (intro conjI impI)
  show "snd (operator_output out inst) =
     (if is_jump_or_call (inst_type inst) \<and> (\<exists>p\<in>set (inst_params inst). accessor_mismatch p)
      then Some bad_get else None)"
    by (rule operator_output_error)
next
  assume "\<not> is_jump_or_call (inst_type inst)"
  then have "\<forall>p\<in>set (inst_params inst).
      put_param (inst_type inst) p = Inr ('' '' @ put_variant (param_value p))"
    by (simp add: put_param_default)
  then show "operator_output out inst =
        (out @ fmt_08x (inst_address inst) @ '': '' @ inst_name inst @
         comma_separated (map (\<lambda>p. '' '' @ put_variant (param_value p)) (inst_params inst)) @
         '' ('' @ fmt_d (inst_stackChange inst) @ '')'' @ [CHR 0x0A], None)"
    by (rule operator_output_all)
next
  assume "param_type p = kString"
  then show "put_param (inst_type inst) p = Inr ('' '' @ put_variant (param_value p))"
    by (simp add: put_param_default)
qed

theorem render_fails_iff_accessor_mismatch_witness:
  "operator_output [] (inst_of 0x2A ''jump'' kJump
      [\<lparr>param_type = kInt, param_value = UInt32 5\<rparr>] 0) = (''0000002a: jump'', Some bad_get) \<and>
   operator_output [] (inst_of 0x2A ''store'' kStore
      [\<lparr>param_type = kInt, param_value = Str ''x''\<rparr>] 1) =
     (''0000002a: store x (1)\<newline>'', None) \<and>
   put_param kJump \<lparr>param_type = kString, param_value = Int32 5\<rparr> = Inr '' 5''"
proof -
  let ?i = "inst_of 0x2A ''jump'' kJump [\<lparr>param_type = kInt, param_value = UInt32 5\<rparr>] 0"
  let ?j = "inst_of 0x2A ''store'' kStore [\<lparr>param_type = kInt, param_value = Str ''x''\<rparr>] 1"
  let ?p = "\<lparr>param_type = kString, param_value = Int32 5\<rparr>"
  have "snd (operator_output [] ?i) = Some bad_get"
    using render_fails_iff_accessor_mismatch [of "[]" ?i ?p]
    by (simp add: inst_of_def is_jump_or_call_def accessor_mismatch_def is_signed_type_def)
  moreover have "fst (operator_output [] ?i) = ''0000002a: jump''"
    by (simp add: operator_output_def inst_of_def fmt_08x_42 put_param_def is_jump_or_call_def
          getSigned_def)
  ultimately have first: "operator_output [] ?i = (''0000002a: jump'', Some bad_get)"
    by (simp add: prod_eq_iff)
  have second: "operator_output [] ?j = (''0000002a: store x (1)\<newline>'', None)"
    using render_fails_iff_accessor_mismatch [of "[]" ?j ?p]
    by (simp add: inst_of_def is_jump_or_call_def fmt_08x_42 fmt_d_1)
  have third: "put_param kJump ?p = Inr '' 5''"
    using render_fails_iff_accessor_mismatch [of "[]" ?i ?p]
    by (simp add: inst_of_def dec_int_def dec_digits_5)
  from first second third show ?thesis by simp
qed

text \<open>
  A \<open>kLoad\<close> instruction whose parameter is declared \<open>kByte\<close> and stores a signed
  integer is not type-coherent, and the operator prints it without any failure.
\<close>

theorem render_masks_mismatch_counterexample:
  "\<not> inst_coherent (inst_of 0x2A ''push'' kLoad [\<lparr>param_type = kByte, param_value = Int32 5\<rparr>] 1) \<and>
   operator_output [] (inst_of 0x2A ''push'' kLoad [\<lparr>param_type = kByte, param_value = Int32 5\<rparr>] 1)
     = (''0000002a: push 5 (1)'' @ [CHR 0x0A], None)"
  by (simp add: inst_coherent_def type_coherent_def is_signed_type_def is_unsigned_type_def
        operator_output_def inst_of_def put_param_def is_jump_or_call_def fmt_08x_42 fmt_d_1
        dec_int_def dec_digits_5)

text \<open>
  C4. For every type-coherent instruction the operator succeeds and appends the address
  field, the name, the operands separated by commas and the stack change. The operand of a
  jump or call (\<open>kCondJump\<close>, \<open>kCondJumpRel\<close>, \<open>kJump\<close>, \<open>kJumpRel\<close>,
  \<open>kCall\<close>) is \<open>0x\<close> and the uppercase hexadecimal digits of the stored signed or
  unsigned value when it is numeric, and the text itself when it is text; in every other
  category each operand has its default form. A \<open>kJump\<close> with the \<open>kInt\<close> parameter
  -16 shows \<open>0xFFFFFFF0\<close>, a \<open>kLoad\<close> with the same parameter shows \<open>-16\<close>, and a
  \<open>kCall\<close> with the \<open>kUInt\<close> parameter 4096 shows \<open>0x1000\<close>.
\<close>

theorem render_coherent_operands:
  "(inst_coherent inst \<longrightarrow>
      operator_output out inst =
        (out @ fmt_08x (inst_address inst) @ '': '' @ inst_name inst @
         comma_separated
           (map (\<lambda>p. '' '' @ operand_text (inst_type inst) p) (inst_params inst)) @
         '' ('' @ fmt_d (inst_stackChange inst) @ '')'' @ [CHR 0x0A], None)) \<and>
   operator_output out (inst_of a n kJump [\<lparr>param_type = kInt, param_value = Int32 (- 16)\<rparr>] sc) =
     (out @ fmt_08x a @ '': '' @ n @ '' 0xFFFFFFF0'' @ '' ('' @ fmt_d sc @ '')'' @ [CHR 0x0A], None) \<and>
   operator_output out (inst_of a n kLoad [\<lparr>param_type = kInt, param_value = Int32 (- 16)\<rparr>] sc) =
     (out @ fmt_08x a @ '': '' @ n @ '' -16'' @ '' ('' @ fmt_d sc @ '')'' @ [CHR 0x0A], None) \<and>
   operator_output out (inst_of a n kCall [\<lparr>param_type = kUInt, param_value = UInt32 4096\<rparr>] sc) =
     (out @ fmt_08x a @ '': '' @ n @ '' 0x1000'' @ '' ('' @ fmt_d sc @ '')'' @ [CHR 0x0A], None)"
  using operator_output_coherent [of inst out]
    operator_output_single [OF put_param_jump_neg16, of out a n sc]
    operator_output_single [OF put_param_load_neg16, of out a n sc]
    operator_output_single [OF put_param_call_4096, of out a n sc]
  by blast

theorem render_coherent_operands_witness:
  "inst_coherent (inst_of 0x2A ''call'' kCall
     [\<lparr>param_type = kUInt, param_value = UInt32 4096\<rparr>,
      \<lparr>param_type = kString, param_value = Str ''fn''\<rparr>] 0) \<and>
   operator_output [] (inst_of 0x2A ''call'' kCall
     [\<lparr>param_type = kUInt, param_value = UInt32 4096\<rparr>,
      \<lparr>param_type = kString, param_value = Str ''fn''\<rparr>] 0) =
     (''0000002a: call 0x1000, fn (0)'' @ [CHR 0x0A], None)"
proof -
  let ?i = "inst_of 0x2A ''call'' kCall
     [\<lparr>param_type = kUInt, param_value = UInt32 4096\<rparr>,
      \<lparr>param_type = kString, param_value = Str ''fn''\<rparr>] 0"
  have c: "inst_coherent ?i"
    by (simp add: inst_coherent_def inst_of_def type_coherent_def is_signed_type_def
          is_unsigned_type_def)
  have h: "hex_digits True 4096 = ''1000''"
    by (simp add: hex_digits.simps digit_char_def hex_alphabet_def)
  show ?thesis
    using c render_coherent_operands [of ?i "[]" 0 "[]" 0]
    by (simp add: inst_of_def operand_text_def fmt_08x_42 fmt_d_0 h)
qed

text \<open>
  C5. Round trip: a parameter built with type \<open>T\<close> and a value of the alternative that
  \<open>T\<close> implies returns exactly that value from the accessor that \<open>T\<close> implies, and
  each of the two other accessors throws \<open>bad_get\<close>.
\<close>

theorem accessor_round_trip:
  assumes "type_coherent \<lparr>param_type = T, param_value = x\<rparr>"
  shows "(is_signed_type T \<longrightarrow>
            (\<exists>v. x = Int32 v \<and> getSigned \<lparr>param_type = T, param_value = x\<rparr> = Inr v) \<and>
            getUnsigned \<lparr>param_type = T, param_value = x\<rparr> = Inl bad_get \<and>
            getString \<lparr>param_type = T, param_value = x\<rparr> = Inl bad_get) \<and>
         (is_unsigned_type T \<longrightarrow>
            (\<exists>v. x = UInt32 v \<and> getUnsigned \<lparr>param_type = T, param_value = x\<rparr> = Inr v) \<and>
            getSigned \<lparr>param_type = T, param_value = x\<rparr> = Inl bad_get \<and>
            getString \<lparr>param_type = T, param_value = x\<rparr> = Inl bad_get) \<and>
         (T = kString \<longrightarrow>
            (\<exists>s. x = Str s \<and> getString \<lparr>param_type = T, param_value = x\<rparr> = Inr s) \<and>
            getSigned \<lparr>param_type = T, param_value = x\<rparr> = Inl bad_get \<and>
            getUnsigned \<lparr>param_type = T, param_value = x\<rparr> = Inl bad_get)"
  using assms
  by (cases T; cases x)
     (simp_all add: type_coherent_def is_signed_type_def is_unsigned_type_def
        getSigned_def getUnsigned_def getString_def)

theorem accessor_round_trip_witness:
  "(type_coherent \<lparr>param_type = kString, param_value = Str ''room''\<rparr> \<and>
    getString \<lparr>param_type = kString, param_value = Str ''room''\<rparr> = Inr ''room'' \<and>
    getSigned \<lparr>param_type = kString, param_value = Str ''room''\<rparr> = Inl bad_get \<and>
    getUnsigned \<lparr>param_type = kString, param_value = Str ''room''\<rparr> = Inl bad_get) \<and>
   (type_coherent \<lparr>param_type = kSByte, param_value = Int32 (- 1)\<rparr> \<and>
    getSigned \<lparr>param_type = kSByte, param_value = Int32 (- 1)\<rparr> = Inr (- 1) \<and>
    getUnsigned \<lparr>param_type = kSByte, param_value = Int32 (- 1)\<rparr> = Inl bad_get \<and>
    getString \<lparr>param_type = kSByte, param_value = Int32 (- 1)\<rparr> = Inl bad_get) \<and>
   (type_coherent \<lparr>param_type = kUInt, param_value = UInt32 65536\<rparr> \<and>
    getUnsigned \<lparr>param_type = kUInt, param_value = UInt32 65536\<rparr> = Inr 65536 \<and>
    getSigned \<lparr>param_type = kUInt, param_value = UInt32 65536\<rparr> = Inl bad_get \<and>
    getString \<lparr>param_type = kUInt, param_value = UInt32 65536\<rparr> = Inl bad_get)"
proof -
  have c1: "type_coherent \<lparr>param_type = kString, param_value = Str ''room''\<rparr>"
    by (simp add: type_coherent_def is_signed_type_def is_unsigned_type_def)
  have c2: "type_coherent \<lparr>param_type = kSByte, param_value = Int32 (- 1)\<rparr>"
    by (simp add: type_coherent_def is_signed_type_def)
  have c3: "type_coherent \<lparr>param_type = kUInt, param_value = UInt32 65536\<rparr>"
    by (simp add: type_coherent_def is_signed_type_def is_unsigned_type_def)
  show ?thesis
    using c1 c2 c3 accessor_round_trip [OF c1] accessor_round_trip [OF c2]
      accessor_round_trip [OF c3]
    by (simp add: is_signed_type_def is_unsigned_type_def)
qed

text \<open>
  C6 (as amended). Whenever the operator returns without an exception, what it appended
  ends, after the parameters, with a space, the stack change in parentheses as a signed
  decimal number, and a newline. It returns so for every type-coherent instruction and for
  every instruction that is not a jump or call. Stack change -2 gives \<open>(-2)\<close> and 3
  gives \<open>(3)\<close>.
\<close>

theorem render_ends_with_stack_change:
  "(snd (operator_output out inst) = None \<longrightarrow>
      (\<exists>ptxt. fst (operator_output out inst) =
         out @ fmt_08x (inst_address inst) @ '': '' @ inst_name inst @ ptxt @
         '' ('' @ dec_int (sint (inst_stackChange inst)) @ '')'' @ [CHR 0x0A])) \<and>
   (inst_coherent inst \<longrightarrow> snd (operator_output out inst) = None) \<and>
   (\<not> is_jump_or_call (inst_type inst) \<longrightarrow> snd (operator_output out inst) = None) \<and>
   (inst_stackChange inst = - 2 \<longrightarrow>
      '' ('' @ dec_int (sint (inst_stackChange inst)) @ '')'' = '' (-2)'') \<and>
   (inst_stackChange inst = 3 \<longrightarrow>
      '' ('' @ dec_int (sint (inst_stackChange inst)) @ '')'' = '' (3)'')"
  using operator_output_footer [of out inst] operator_output_coherent_ok [of inst out]
    operator_output_error [of out inst]
  by (auto simp: dec_int_neg2 dec_int_3)

theorem render_ends_with_stack_change_witness:
  "operator_output [] (inst_of 0x2A ''pop'' kStack [] (- 2)) =
     (''0000002a: pop (-2)\<newline>'', None) \<and>
   inst_coherent (inst_of 0x2A ''jump'' kJump [\<lparr>param_type = kInt, param_value = Int32 (- 16)\<rparr>] 3) \<and>
   operator_output [] (inst_of 0x2A ''jump'' kJump [\<lparr>param_type = kInt, param_value = Int32 (- 16)\<rparr>] 3) =
     (''0000002a: jump 0xFFFFFFF0 (3)\<newline>'', None)"
proof -
  let ?i = "inst_of 0x2A ''pop'' kStack [] (- 2)"
  let ?j = "inst_of 0x2A ''jump'' kJump [\<lparr>param_type = kInt, param_value = Int32 (- 16)\<rparr>] 3"
  have "snd (operator_output [] ?i) = None"
    using render_ends_with_stack_change [of "[]" ?i]
    by (simp add: inst_of_def is_jump_or_call_def)
  moreover have "fst (operator_output [] ?i) = ''0000002a: pop (-2)\<newline>''"
    by (simp add: operator_output_def inst_of_def fmt_08x_42 fmt_d_neg2)
  ultimately have first: "operator_output [] ?i = (''0000002a: pop (-2)\<newline>'', None)"
    by (simp add: prod_eq_iff)
  have c: "inst_coherent ?j"
    by (simp add: inst_coherent_def inst_of_def type_coherent_def is_signed_type_def)
  have "snd (operator_output [] ?j) = None"
    using c render_ends_with_stack_change [of "[]" ?j] by simp
  moreover have "fst (operator_output [] ?j) = ''0000002a: jump 0xFFFFFFF0 (3)\<newline>''"
    using operator_output_single [OF put_param_jump_neg16, of "[]" "0x2A" "''jump''" 3]
    by (simp add: fmt_08x_42 fmt_d_3)
  ultimately have second: "operator_output [] ?j = (''0000002a: jump 0xFFFFFFF0 (3)\<newline>'', None)"
    by (simp add: prod_eq_iff)
  from first c second show ?thesis by simp
qed

text \<open>
  A call whose second parameter is declared \<open>kByte\<close> and stores text: the operator
  leaves with \<open>bad_get\<close> after the comma, and the stream holds neither the stack change
  nor the newline.
\<close>

theorem render_stops_before_stack_change_counterexample:
  "operator_output [] (inst_of 0x2A ''call'' kCall
      [\<lparr>param_type = kUInt, param_value = UInt32 4096\<rparr>,
       \<lparr>param_type = kByte, param_value = Str ''x''\<rparr>] 3) =
     (''0000002a: call 0x1000,'', Some bad_get) \<and>
   last (fst (operator_output [] (inst_of 0x2A ''call'' kCall
      [\<lparr>param_type = kUInt, param_value = UInt32 4096\<rparr>,
       \<lparr>param_type = kByte, param_value = Str ''x''\<rparr>] 3))) \<noteq> CHR 0x0A"
proof -
  have "operator_output [] (inst_of 0x2A ''call'' kCall
      [\<lparr>param_type = kUInt, param_value = UInt32 4096\<rparr>,
       \<lparr>param_type = kByte, param_value = Str ''x''\<rparr>] 3) =
     (''0000002a: call 0x1000,'', Some bad_get)"
    by (simp add: operator_output_def inst_of_def fmt_08x_42 put_param_def is_jump_or_call_def
          getUnsigned_def fmt_X_4096)
  then show ?thesis by simp
qed

text \<open>
  C7 (as amended). Rendering is deterministic for a given formatting state of the stream.
  The operator changes no formatting flag, whatever the instruction. For a type-coherent
  instruction it succeeds and appends the line that \<open>rendered_text\<close> computes from the
  flags of the stream and the address, name, category, parameters and stack change of the
  instruction; the characters already written, the opcode and the code generation data do
  not enter, so rendering it a second time appends the same line again. The flags enter
  through numeric operands in default form only: a jump or call has the same line on every
  stream. On a decimal stream without \<open>showpos\<close> the operator is \<open>operator_output\<close>.
\<close>

theorem render_deterministic_per_stream_state:
  "same_flags s (fst (insert_Instruction s inst)) \<and>
   (inst_coherent inst \<longrightarrow>
      insert_Instruction s inst = (put_chars s (rendered_text s inst), None) \<and>
      insert_Instruction (put_chars s (rendered_text s inst)) inst =
        (put_chars (put_chars s (rendered_text s inst)) (rendered_text s inst), None)) \<and>
   (same_flags s s' \<longrightarrow> rendered_text s' inst = rendered_text s inst) \<and>
   (is_jump_or_call (inst_type inst) \<longrightarrow> rendered_text s' inst = rendered_text s inst) \<and>
   rendered_text s (inst\<lparr>inst_opcode := oc, inst_codeGenData := cg\<rparr>) = rendered_text s inst \<and>
   (base s = Dec \<and> \<not> showpos s \<longrightarrow>
      insert_Instruction s inst =
        (s\<lparr>written := fst (operator_output (written s) inst)\<rparr>,
         snd (operator_output (written s) inst)))"
proof (intro conjI impI)
  show "same_flags s (fst (insert_Instruction s inst))"
    by (rule insert_Instruction_flags)
  show "rendered_text s' inst = rendered_text s inst" if "same_flags s s'"
    using that by (rule rendered_text_flags)
  show "rendered_text s' inst = rendered_text s inst" if "is_jump_or_call (inst_type inst)"
    using that by (rule rendered_text_jump)
  show "rendered_text s (inst\<lparr>inst_opcode := oc, inst_codeGenData := cg\<rparr>) = rendered_text s inst"
    by (simp add: rendered_text_def)
  show "insert_Instruction s inst =
        (s\<lparr>written := fst (operator_output (written s) inst)\<rparr>,
         snd (operator_output (written s) inst))" if "base s = Dec \<and> \<not> showpos s"
    using that by (simp add: insert_Instruction_default)
next
  assume c: "inst_coherent inst"
  then show "insert_Instruction s inst = (put_chars s (rendered_text s inst), None)"
    by (rule insert_Instruction_rendered)
  have "rendered_text (put_chars s (rendered_text s inst)) inst = rendered_text s inst"
    by (rule rendered_text_flags) (rule same_flags_put_chars)
  then show "insert_Instruction (put_chars s (rendered_text s inst)) inst =
        (put_chars (put_chars s (rendered_text s inst)) (rendered_text s inst), None)"
    using insert_Instruction_rendered [OF c, of "put_chars s (rendered_text s inst)"] by simp
qed

theorem render_deterministic_per_stream_state_witness:
  "inst_coherent (inst_of 0x2A ''push'' kLoad [\<lparr>param_type = kInt, param_value = Int32 255\<rparr>] 1) \<and>
   written (fst (insert_Instruction (stream_in Hex)
     (inst_of 0x2A ''push'' kLoad [\<lparr>param_type = kInt, param_value = Int32 255\<rparr>] 1))) =
     ''0000002a: push ff (1)\<newline>'' \<and>
   insert_Instruction
     (put_chars (stream_in Hex) ''0000002a: push ff (1)\<newline>'')
     (inst_of 0x2A ''push'' kLoad [\<lparr>param_type = kInt, param_value = Int32 255\<rparr>] 1) =
     (put_chars (stream_in Hex) ''0000002a: push ff (1)\<newline>0000002a: push ff (1)\<newline>'', None) \<and>
   insert_Instruction (stream_in Hex)
     (inst_of 0x2A ''jump'' kJump [\<lparr>param_type = kInt, param_value = Int32 (- 16)\<rparr>] 3) =
     (put_chars (stream_in Hex) ''0000002a: jump 0xFFFFFFF0 (3)\<newline>'', None) \<and>
   insert_Instruction (stream_in Dec) (inst_of 0x2A ''ret'' kReturn [] 3) =
     (put_chars (stream_in Dec) ''0000002a: ret (3)\<newline>'', None)"
proof -
  let ?i = "inst_of 0x2A ''push'' kLoad [\<lparr>param_type = kInt, param_value = Int32 255\<rparr>] 1"
  let ?j = "inst_of 0x2A ''jump'' kJump [\<lparr>param_type = kInt, param_value = Int32 (- 16)\<rparr>] 3"
  note c = push_255_coherent
  have a: "insert_Instruction (stream_in Hex) ?i =
      (put_chars (stream_in Hex) ''0000002a: push ff (1)\<newline>'', None)"
    and b: "insert_Instruction (put_chars (stream_in Hex) ''0000002a: push ff (1)\<newline>'') ?i =
      (put_chars (stream_in Hex) ''0000002a: push ff (1)\<newline>0000002a: push ff (1)\<newline>'', None)"
    using c render_deterministic_per_stream_state
            [where s = "stream_in Hex" and s' = "stream_in Hex" and inst = ?i]
    by (simp_all add: rendered_text_push_255_hex put_chars_put_chars)
  have cj: "inst_coherent ?j"
    by (simp add: inst_coherent_def inst_of_def type_coherent_def is_signed_type_def)
  have jt: "is_jump_or_call (inst_type ?j)"
    by (simp add: inst_of_def is_jump_or_call_def)
  have j: "insert_Instruction (stream_in Hex) ?j =
      (put_chars (stream_in Hex) ''0000002a: jump 0xFFFFFFF0 (3)\<newline>'', None)"
    using cj jt render_deterministic_per_stream_state
            [where s = "stream_in Dec" and s' = "stream_in Hex" and inst = ?j]
          render_deterministic_per_stream_state
            [where s = "stream_in Hex" and s' = "stream_in Hex" and inst = ?j]
    by (simp add: rendered_text_jump_neg16_dec)
  have d: "insert_Instruction (stream_in Dec) (inst_of 0x2A ''ret'' kReturn [] 3) =
     (put_chars (stream_in Dec) ''0000002a: ret (3)\<newline>'', None)"
    using render_deterministic_per_stream_state
            [where s = "stream_in Dec" and s' = "stream_in Dec"
               and inst = "inst_of 0x2A ''ret'' kReturn [] 3"]
    by (simp add: stream_in_def put_chars_def operator_output_def inst_of_def fmt_08x_42 fmt_d_3)
  from a have "written (fst (insert_Instruction (stream_in Hex) ?i)) = ''0000002a: push ff (1)\<newline>''"
    by (simp add: put_chars_def stream_in_def)
  with c b j d show ?thesis by simp
qed

text \<open>
  The line is not a function of the instruction alone: the same type-coherent \<open>kLoad\<close>
  instruction with operand 255 is rendered with \<open>255\<close> on a decimal stream and with
  \<open>ff\<close> on a hexadecimal one.
\<close>

theorem render_depends_on_number_base_counterexample:
  "inst_coherent (inst_of 0x2A ''push'' kLoad [\<lparr>param_type = kInt, param_value = Int32 255\<rparr>] 1) \<and>
   written (fst (insert_Instruction (stream_in Dec)
     (inst_of 0x2A ''push'' kLoad [\<lparr>param_type = kInt, param_value = Int32 255\<rparr>] 1))) =
     ''0000002a: push 255 (1)\<newline>'' \<and>
   written (fst (insert_Instruction (stream_in Hex)
     (inst_of 0x2A ''push'' kLoad [\<lparr>param_type = kInt, param_value = Int32 255\<rparr>] 1))) =
     ''0000002a: push ff (1)\<newline>''"
  using push_255_coherent
  by (simp add: insert_Instruction_def insert_param_def insert_variant_def put_chars_def
        is_jump_or_call_def inst_of_def stream_in_def signed_text_def unsigned_text_def
        fmt_08x_42 fmt_d_1 dec_digits_255 hex_digits_255)

text \<open>
  C8. For every instruction stream, the forward walk from \<open>begin\<close> to \<open>end\<close> yields
  the instructions in order and the reverse walk from \<open>rbegin\<close> to \<open>rend\<close> yields
  exactly the reversed sequence: the same elements, none lost, none repeated.
\<close>

theorem forward_reverse_iteration:
  "iterate_forward v = v \<and>
   iterate_reverse v = rev v \<and>
   iterate_reverse v = rev (iterate_forward v) \<and>
   iterate_forward v = rev (iterate_reverse v) \<and>
   length (iterate_reverse v) = length (iterate_forward v)"
  by (simp add: iterate_forward_def iterate_reverse_def forward_walk_drop reverse_walk_take
        vec_begin_def vec_end_def)

theorem forward_reverse_iteration_witness:
  "iterate_reverse [inst_of 0 ''push'' kLoad [] 1, inst_of 4 ''ret'' kReturn [] 0] =
     [inst_of 4 ''ret'' kReturn [] 0, inst_of 0 ''push'' kLoad [] 1] \<and>
   iterate_forward [inst_of 0 ''push'' kLoad [] 1, inst_of 4 ''ret'' kReturn [] 0] =
     [inst_of 0 ''push'' kLoad [] 1, inst_of 4 ''ret'' kReturn [] 0]"
  using forward_reverse_iteration
          [of "[inst_of 0 ''push'' kLoad [] 1, inst_of 4 ''ret'' kReturn [] 0]"]
  by simp

text \<open>
  C9. Each accessor succeeds or throws according to the alternative that the variant
  stores, and never according to the declared type: replacing the declared type changes no
  accessor's result. A parameter declared \<open>kByte\<close> that stores a signed integer has
  \<open>getSigned\<close> succeed and \<open>getUnsigned\<close> throw.
\<close>

theorem accessors_decided_by_stored_alternative:
  "getSigned (p\<lparr>param_type := T\<rparr>) = getSigned p \<and>
   getUnsigned (p\<lparr>param_type := T\<rparr>) = getUnsigned p \<and>
   getString (p\<lparr>param_type := T\<rparr>) = getString p \<and>
   ((\<exists>v. getSigned p = Inr v) \<longleftrightarrow> stores_signed (param_value p)) \<and>
   ((\<exists>v. getUnsigned p = Inr v) \<longleftrightarrow> stores_unsigned (param_value p)) \<and>
   ((\<exists>s. getString p = Inr s) \<longleftrightarrow> stores_text (param_value p)) \<and>
   (getSigned p = Inl bad_get \<longleftrightarrow> \<not> stores_signed (param_value p)) \<and>
   (getUnsigned p = Inl bad_get \<longleftrightarrow> \<not> stores_unsigned (param_value p)) \<and>
   (getString p = Inl bad_get \<longleftrightarrow> \<not> stores_text (param_value p)) \<and>
   getSigned \<lparr>param_type = kByte, param_value = Int32 v\<rparr> = Inr v \<and>
   getUnsigned \<lparr>param_type = kByte, param_value = Int32 v\<rparr> = Inl bad_get"
  by (cases "param_value p")
     (simp_all add: getSigned_def getUnsigned_def getString_def)

theorem accessors_decided_by_stored_alternative_witness:
  "getSigned \<lparr>param_type = kByte, param_value = Int32 200\<rparr> = Inr 200 \<and>
   getUnsigned \<lparr>param_type = kByte, param_value = Int32 200\<rparr> = Inl bad_get \<and>
   getUnsigned \<lparr>param_type = kSByte, param_value = UInt32 200\<rparr> = Inr 200"
  using accessors_decided_by_stored_alternative
          [where p = "\<lparr>param_type = kSByte, param_value = UInt32 200\<rparr>" and T = kByte
             and v = 200]
  by (simp add: getUnsigned_def)

text \<open>
  C10. For an instruction without parameters the operator appends the address field, a
  colon, a space, the name, then exactly one space, the stack change in parentheses and the
  newline; no comma and no other separator.
\<close>

theorem render_no_params:
  assumes "inst_params inst = []"
  shows "operator_output out inst =
     (out @ fmt_08x (inst_address inst) @ '': '' @ inst_name inst @
      '' ('' @ fmt_d (inst_stackChange inst) @ '')'' @ [CHR 0x0A], None)"
  using assms by (simp add: operator_output_def)

theorem render_no_params_witness:
  "inst_params (inst_of 0x2A ''ret'' kReturn [] 3) = [] \<and>
   operator_output [] (inst_of 0x2A ''ret'' kReturn [] 3) = (''0000002a: ret (3)\<newline>'', None)"
proof -
  have e: "inst_params (inst_of 0x2A ''ret'' kReturn [] 3) = []"
    by (simp add: inst_of_def)
  show ?thesis
    using e render_no_params [OF e, of "[]"]
    by (simp add: inst_of_def fmt_08x_42 fmt_d_3)
qed

end
